theory Spec2Isabelle
  imports Main "HOL-Library.AList"
begin

section \<open>Characters of the text column\<close>

text \<open>
  \<^verbatim>\<open>Preprocessing.__init__\<close> loads \<^verbatim>\<open>data.csv\<close> with \<^verbatim>\<open>encoding='latin-1'\<close>: every
  byte of the file becomes the code point of the same number, so the characters of the
  text column are the code points 0..255. That is the type \<^typ>\<open>char\<close>, and a cell of the
  column is a \<^typ>\<open>string\<close>. The character classes below are Python's classes for Unicode
  \<^verbatim>\<open>str\<close> patterns, restricted to these 256 code points.
\<close>

definition code_point :: "char \<Rightarrow> nat" where
  "code_point c = of_char c"

text \<open>\<^verbatim>\<open>\d\<close>: the decimal digits (category Nd); below 256 these are \<^verbatim>\<open>0\<close>..\<^verbatim>\<open>9\<close>.\<close>

definition is_digit :: "char \<Rightarrow> bool" where
  "is_digit c = (48 \<le> code_point c \<and> code_point c \<le> 57)"

text \<open>
  \<^verbatim>\<open>str.isalnum\<close>: letters and numeric characters. Below 256: the ASCII digits and
  letters, the ordinal indicators (170, 186), the micro sign (181), the superscript digits
  (178, 179, 185), the vulgar fractions (188..190) and the accented letters (192..255
  without the multiplication and division signs 215, 247).
\<close>

definition is_alnum :: "char \<Rightarrow> bool" where
  "is_alnum c =
    (let n = code_point c in
       (48 \<le> n \<and> n \<le> 57) \<or> (65 \<le> n \<and> n \<le> 90) \<or> (97 \<le> n \<and> n \<le> 122)
     \<or> n = 170 \<or> n = 178 \<or> n = 179 \<or> n = 181 \<or> n = 185 \<or> n = 186
     \<or> (188 \<le> n \<and> n \<le> 190) \<or> (192 \<le> n \<and> n \<le> 214)
     \<or> (216 \<le> n \<and> n \<le> 246) \<or> (248 \<le> n \<and> n \<le> 255))"

text \<open>\<^verbatim>\<open>\w\<close>: the alphanumeric characters and the underscore.\<close>

definition is_word :: "char \<Rightarrow> bool" where
  "is_word c = (is_alnum c \<or> c = CHR ''_'')"

text \<open>
  \<^verbatim>\<open>\s\<close> and \<^verbatim>\<open>str.isspace\<close>, which \<^verbatim>\<open>str.split()\<close> uses as well: tab, line feed,
  vertical tab, form feed, carriage return (9..13), the separators 28..31, the space (32),
  next line (133) and the no-break space (160).
\<close>

definition is_space :: "char \<Rightarrow> bool" where
  "is_space c =
    (let n = code_point c in (9 \<le> n \<and> n \<le> 13) \<or> (28 \<le> n \<and> n \<le> 32) \<or> n = 133 \<or> n = 160)"

text \<open>
  \<^verbatim>\<open>str.lower\<close> on one character: the upper-case letters \<^verbatim>\<open>A\<close>..\<^verbatim>\<open>Z\<close> (65..90) and the
  accented capitals (192..214, 216..222) move up by 32; every other character below 256 is
  left as it is.
\<close>

definition lower_char :: "char \<Rightarrow> char" where
  "lower_char c =
    (let n = code_point c in
       if (65 \<le> n \<and> n \<le> 90) \<or> (192 \<le> n \<and> n \<le> 214) \<or> (216 \<le> n \<and> n \<le> 222)
       then char_of (n + 32) else c)"

section \<open>The transforms on one cell\<close>

text \<open>\<^verbatim>\<open>lowercase\<close>: \<^verbatim>\<open>.str.lower()\<close> on a cell.\<close>

definition lowercase_row :: "string \<Rightarrow> string" where
  "lowercase_row x = map lower_char x"

text \<open>
  \<^verbatim>\<open>remove_numbers\<close>: \<^verbatim>\<open>re.sub(r'\d+', '', x)\<close>. The scan copies a character that is no
  digit; at a digit the greedy \<^verbatim>\<open>\d+\<close> takes the whole run of digits, which is replaced
  by the empty string.
\<close>

function remove_numbers_row :: "string \<Rightarrow> string" where
  "remove_numbers_row [] = []"
| "remove_numbers_row (c # cs) =
     (if is_digit c then remove_numbers_row (dropWhile is_digit cs)
      else c # remove_numbers_row cs)"
  by pat_completeness auto
termination
  by (relation "measure length") (auto simp: le_imp_less_Suc length_dropWhile_le)

text \<open>
  \<^verbatim>\<open>remove_punctuation\<close>, first step: \<^verbatim>\<open>re.sub(pattern, '', str(x))\<close> with the pattern
  \<^verbatim>\<open>(?<!\w)-(?!\w)|[^\w\s-]\<close>. Both alternatives consume exactly one character, so the
  substitution deletes the characters at which the pattern matches. The look-behind and the
  look-ahead read the subject string itself (not the output): \<open>left\<close> is the character
  in front of the position (\<open>None\<close> at the start), \<open>right\<close> the one that follows it
  (\<open>None\<close> at the end).
\<close>

fun word_opt :: "char option \<Rightarrow> bool" where
  "word_opt None = False"
| "word_opt (Some c) = is_word c"

fun head_opt :: "string \<Rightarrow> char option" where
  "head_opt [] = None"
| "head_opt (c # cs) = Some c"

text \<open>\<^verbatim>\<open>(?<!\w)-(?!\w)\<close>\<close>

definition hyphen_alone :: "char option \<Rightarrow> char \<Rightarrow> char option \<Rightarrow> bool" where
  "hyphen_alone left c right = (\<not> word_opt left \<and> c = CHR ''-'' \<and> \<not> word_opt right)"

text \<open>\<^verbatim>\<open>[^\w\s-]\<close>\<close>

definition other_punct :: "char \<Rightarrow> bool" where
  "other_punct c = (\<not> is_word c \<and> \<not> is_space c \<and> c \<noteq> CHR ''-'')"

definition pattern_matches :: "char option \<Rightarrow> char \<Rightarrow> char option \<Rightarrow> bool" where
  "pattern_matches left c right = (hyphen_alone left c right \<or> other_punct c)"

fun pattern_sub :: "char option \<Rightarrow> string \<Rightarrow> string" where
  "pattern_sub left [] = []"
| "pattern_sub left (c # cs) =
     (if pattern_matches left c (head_opt cs) then pattern_sub (Some c) cs
      else c # pattern_sub (Some c) cs)"

text \<open>
  Second step: \<^verbatim>\<open>.str.replace(re.compile(r"\s{2}"), ' ', regex=True)\<close>. Matches do not
  overlap and are found from the left: two whitespace characters in a row become one
  space and the scan goes on behind them.
\<close>

fun double_space_sub :: "string \<Rightarrow> string" where
  "double_space_sub (a # b # cs) =
     (if is_space a \<and> is_space b then CHR '' '' # double_space_sub cs
      else a # double_space_sub (b # cs))"
| "double_space_sub cs = cs"

definition remove_punctuation_row :: "string \<Rightarrow> string" where
  "remove_punctuation_row x = double_space_sub (pattern_sub None x)"

text \<open>
  \<^verbatim>\<open>str.split()\<close> without a separator: the words are the maximal runs of characters
  that are no whitespace; \<open>w\<close> is the word read so far.
\<close>

fun split_from :: "string \<Rightarrow> string \<Rightarrow> string list" where
  "split_from w [] = (if w = [] then [] else [w])"
| "split_from w (c # cs) =
     (if is_space c then (if w = [] then split_from [] cs else w # split_from [] cs)
      else split_from (w @ [c]) cs)"

definition str_split :: "string \<Rightarrow> string list" where
  "str_split x = split_from [] x"

text \<open>\<^verbatim>\<open>' '.join(words)\<close>\<close>

fun str_join :: "string list \<Rightarrow> string" where
  "str_join [] = []"
| "str_join [w] = w"
| "str_join (w # ws) = w @ CHR '' '' # str_join ws"

text \<open>
  The NLTK resources are not part of the repository; the transforms take them as a
  parameter: the list \<^verbatim>\<open>stopwords.words('english')\<close>, \<^verbatim>\<open>PorterStemmer().stem\<close> and
  \<^verbatim>\<open>WordNetLemmatizer().lemmatize\<close>.
\<close>

record nltk =
  stopwords_words :: "string list"
  porter_stem :: "string \<Rightarrow> string"
  wordnet_lemmatize :: "string \<Rightarrow> string"

definition remove_stop_words :: "nltk \<Rightarrow> string \<Rightarrow> string" where
  "remove_stop_words r phrase =
     (let words = str_split phrase;
          filtered = filter (\<lambda>w. lowercase_row w \<notin> set (stopwords_words r)) words
      in str_join filtered)"

definition stem_phrase :: "nltk \<Rightarrow> string \<Rightarrow> string" where
  "stem_phrase r phrase =
     (let words = str_split phrase; stemmed = map (porter_stem r) words in str_join stemmed)"

definition lemmatize_phrase :: "nltk \<Rightarrow> string \<Rightarrow> string" where
  "lemmatize_phrase r phrase =
     (let words = str_split phrase; lemmatized = map (wordnet_lemmatize r) words
      in str_join lemmatized)"

section \<open>The state of a \<^verbatim>\<open>Preprocessing\<close> object\<close>

text \<open>
  \<^verbatim>\<open>parse_args\<close> returns a namespace with the three flags (\<open>lemma_flag\<close> is the
  attribute \<^verbatim>\<open>lemma\<close>). The command line is a list of
  the six option strings the parser declares (\<^verbatim>\<open>--stop\<close>, \<^verbatim>\<open>--no-stop\<close>, \<^verbatim>\<open>--stem\<close>,
  \<^verbatim>\<open>--no-stem\<close>, \<^verbatim>\<open>--lemma\<close>, \<^verbatim>\<open>--no-lemma\<close>); help, abbreviations and unknown arguments
  are outside the model.
\<close>

datatype flag = Stop | NoStop | Stem | NoStem | Lemma | NoLemma

record namespace =
  stop :: bool
  stem :: bool
  lemma_flag :: bool

text \<open>
  \<^verbatim>\<open>SystemExit n\<close> is \<^verbatim>\<open>sys.exit(n)\<close>, which \<^verbatim>\<open>ArgumentParser.error\<close> calls with status 2
  after printing the usage and the message to the standard error stream.
  \<^verbatim>\<open>FileNotFoundError\<close> is raised by \<^verbatim>\<open>pd.read_csv\<close> when \<^verbatim>\<open>data.csv\<close> is absent,
  \<^verbatim>\<open>KeyError\<close> by \<^verbatim>\<open>self.df[self.column_name]\<close> when the table has no such column.
\<close>

datatype error = SystemExit nat | FileNotFoundError | KeyError

definition and_then :: "error + 'a \<Rightarrow> ('a \<Rightarrow> error + 'b) \<Rightarrow> error + 'b" where
  "and_then m f = (case m of Inl e \<Rightarrow> Inl e | Inr x \<Rightarrow> f x)"

text \<open>
  The parser keeps, for the mutually exclusive group of \<^verbatim>\<open>--stem\<close> and \<^verbatim>\<open>--lemma\<close>, which
  of the two actions it has already seen. An option of one action after the other action
  has been seen is the error \<^verbatim>\<open>not allowed with argument ...\<close>; a boolean optional action
  stores \<open>True\<close> for \<^verbatim>\<open>--x\<close> and \<open>False\<close> for \<^verbatim>\<open>--no-x\<close>.
\<close>

record parser_state =
  args :: namespace
  seen_stem :: bool
  seen_lemma :: bool

fun take_action :: "flag \<Rightarrow> parser_state \<Rightarrow> error + parser_state" where
  "take_action Stop p = Inr (p\<lparr>args := (args p)\<lparr>stop := True\<rparr>\<rparr>)"
| "take_action NoStop p = Inr (p\<lparr>args := (args p)\<lparr>stop := False\<rparr>\<rparr>)"
| "take_action Stem p =
     (if seen_lemma p then Inl (SystemExit 2)
      else Inr (p\<lparr>args := (args p)\<lparr>stem := True\<rparr>, seen_stem := True\<rparr>))"
| "take_action NoStem p =
     (if seen_lemma p then Inl (SystemExit 2)
      else Inr (p\<lparr>args := (args p)\<lparr>stem := False\<rparr>, seen_stem := True\<rparr>))"
| "take_action Lemma p =
     (if seen_stem p then Inl (SystemExit 2)
      else Inr (p\<lparr>args := (args p)\<lparr>lemma_flag := True\<rparr>, seen_lemma := True\<rparr>))"
| "take_action NoLemma p =
     (if seen_stem p then Inl (SystemExit 2)
      else Inr (p\<lparr>args := (args p)\<lparr>lemma_flag := False\<rparr>, seen_lemma := True\<rparr>))"

fun consume :: "flag list \<Rightarrow> parser_state \<Rightarrow> error + namespace" where
  "consume [] p = Inr (args p)"
| "consume (a # argv) p = and_then (take_action a p) (consume argv)"

definition parse_args :: "flag list \<Rightarrow> error + namespace" where
  "parse_args argv =
     consume argv \<lparr>args = \<lparr>stop = False, stem = False, lemma_flag = False\<rparr>,
                   seen_stem = False, seen_lemma = False\<rparr>"

text \<open>
  The fields of the object. The data frame is a map from column names to columns, each a
  list of cells in row order; \<^verbatim>\<open>all_tokens\<close> is a Python dictionary, kept as an
  association list in insertion order; \<^verbatim>\<open>bow\<close> is \<open>None\<close> until \<^verbatim>\<open>create_bow\<close> has set it.
\<close>

record preprocessing =
  inputs :: namespace
  df :: "string \<rightharpoonup> string list"
  all_tokens :: "(string \<times> nat) list"
  types :: "string set"
  bow :: "(string \<times> nat) list option"

definition column_name :: string where
  "column_name = ''Description: (Collection Details)/Description''"

text \<open>
  What the program touches outside the object: the output directory, the input file (its
  table after \<^verbatim>\<open>fillna('')\<close>, \<open>None\<close> when the file is absent) and the order of the
  file operations.
\<close>

datatype effect = Mkdir | ReadCsv | WriteBow | WriteTxt

record world =
  output_dir_exists :: bool
  data_csv :: "(string \<rightharpoonup> string list) option"
  effects :: "effect list"

definition init :: "flag list \<Rightarrow> world \<Rightarrow> world \<times> (error + preprocessing)" where
  "init argv w =
     (let w1 = (if output_dir_exists w then w
                else w\<lparr>output_dir_exists := True, effects := effects w @ [Mkdir]\<rparr>)
      in case parse_args argv of
           Inl e \<Rightarrow> (w1, Inl e)
         | Inr ns \<Rightarrow>
             (let w2 = w1\<lparr>effects := effects w1 @ [ReadCsv]\<rparr>
              in case data_csv w2 of
                   None \<Rightarrow> (w2, Inl FileNotFoundError)
                 | Some table \<Rightarrow>
                     (w2, Inr \<lparr>inputs = ns, df = table, all_tokens = [], types = {},
                               bow = None\<rparr>)))"

section \<open>The transforms on the column\<close>

text \<open>
  \<^verbatim>\<open>self.df[self.column_name] = self.df[self.column_name].apply(f)\<close>, and the same shape
  with \<^verbatim>\<open>.str.lower()\<close> and \<^verbatim>\<open>.str.replace\<close>: the cells of the column are replaced by
  their images, the index is kept.
\<close>

definition apply_column :: "(string \<Rightarrow> string) \<Rightarrow> preprocessing \<Rightarrow> error + preprocessing" where
  "apply_column f self =
     (case df self column_name of
        None \<Rightarrow> Inl KeyError
      | Some col \<Rightarrow> Inr (self\<lparr>df := (df self)(column_name \<mapsto> map f col)\<rparr>))"

definition lowercase :: "preprocessing \<Rightarrow> error + preprocessing" where
  "lowercase self = apply_column lowercase_row self"

definition remove_punctuation :: "preprocessing \<Rightarrow> error + preprocessing" where
  "remove_punctuation self =
     and_then (apply_column (pattern_sub None) self) (apply_column double_space_sub)"

definition remove_numbers :: "preprocessing \<Rightarrow> error + preprocessing" where
  "remove_numbers self = apply_column remove_numbers_row self"

definition remove_stopwords :: "nltk \<Rightarrow> preprocessing \<Rightarrow> error + preprocessing" where
  "remove_stopwords r self = apply_column (remove_stop_words r) self"

definition stem_words :: "nltk \<Rightarrow> preprocessing \<Rightarrow> error + preprocessing" where
  "stem_words r self = apply_column (stem_phrase r) self"

definition lemmatize_words :: "nltk \<Rightarrow> preprocessing \<Rightarrow> error + preprocessing" where
  "lemmatize_words r self = apply_column (lemmatize_phrase r) self"

section \<open>Bag of words and the count of types and tokens\<close>

text \<open>
  \<^verbatim>\<open>.str.split(expand=True).stack()\<close> lists the tokens of all rows, row by row (the
  padding of the shorter rows is dropped by \<^verbatim>\<open>stack\<close>). \<^verbatim>\<open>value_counts()\<close> counts every
  distinct value and sorts by falling count. pandas does not fix the order of values with
  the same count; here they stay in the order of their first occurrence.
\<close>

definition stack_tokens :: "string list \<Rightarrow> string list" where
  "stack_tokens col = concat (map str_split col)"

definition unique :: "string list \<Rightarrow> string list" where
  "unique xs = rev (remdups (rev xs))"

definition value_counts :: "string list \<Rightarrow> (string \<times> nat) list" where
  "value_counts xs =
     sort_key (\<lambda>(w, n). - int n) (map (\<lambda>w. (w, count_list xs w)) (unique xs))"

definition create_bow :: "preprocessing \<Rightarrow> error + preprocessing" where
  "create_bow self =
     (case df self column_name of
        None \<Rightarrow> Inl KeyError
      | Some col \<Rightarrow> Inr (self\<lparr>bow := Some (value_counts (stack_tokens col))\<rparr>))"

text \<open>The body of the loop \<^verbatim>\<open>for token in tokens\<close> of \<^verbatim>\<open>count_tokens\<close>.\<close>

definition count_token :: "string \<Rightarrow> preprocessing \<Rightarrow> preprocessing" where
  "count_token token self =
     (let self1 = self\<lparr>types := insert token (types self)\<rparr>
      in case map_of (all_tokens self1) token of
           None \<Rightarrow> self1\<lparr>all_tokens := AList.update token 1 (all_tokens self1)\<rparr>
         | Some n \<Rightarrow> self1\<lparr>all_tokens := AList.update token (n + 1) (all_tokens self1)\<rparr>)"

definition count_tokens :: "string \<Rightarrow> preprocessing \<Rightarrow> preprocessing" where
  "count_tokens sentence self = fold count_token (str_split sentence) self"

definition count_types_and_tokens :: "preprocessing \<Rightarrow> error + preprocessing" where
  "count_types_and_tokens self =
     (case df self column_name of
        None \<Rightarrow> Inl KeyError
      | Some col \<Rightarrow> Inr (fold count_tokens col self))"

section \<open>The pipeline\<close>

definition main :: "nltk \<Rightarrow> preprocessing \<Rightarrow> error + preprocessing" where
  "main r self0 =
     and_then (lowercase self0) (\<lambda>self1.
     and_then (remove_numbers self1) (\<lambda>self2.
     and_then (remove_punctuation self2) (\<lambda>self3.
     and_then (if stop (inputs self3) then remove_stopwords r self3 else Inr self3) (\<lambda>self4.
     and_then (if stem (inputs self4) then stem_words r self4 else Inr self4) (\<lambda>self5.
     and_then (if lemma_flag (inputs self5) then lemmatize_words r self5 else Inr self5) (\<lambda>self6.
     and_then (create_bow self6) (\<lambda>self7.
     count_types_and_tokens self7)))))))"

text \<open>
  The script: \<^verbatim>\<open>Preprocessing()\<close> and then \<^verbatim>\<open>main()\<close>, which writes the two output files
  when it gets to its end.
\<close>

definition run :: "nltk \<Rightarrow> flag list \<Rightarrow> world \<Rightarrow> world \<times> (error + preprocessing)" where
  "run r argv w =
     (case init argv w of
        (w1, Inl e) \<Rightarrow> (w1, Inl e)
      | (w1, Inr self) \<Rightarrow>
          (case main r self of
             Inl e \<Rightarrow> (w1, Inl e)
           | Inr self' \<Rightarrow> (w1\<lparr>effects := effects w1 @ [WriteBow, WriteTxt]\<rparr>, Inr self')))"

section \<open>Auxiliary notions for the properties\<close>

text \<open>
  The pattern of \<^verbatim>\<open>remove_punctuation\<close> read at position \<open>i\<close> of the string \<open>x\<close>, with
  \<open>left\<close> in front of the string.
\<close>

definition deleted_from :: "char option \<Rightarrow> string \<Rightarrow> nat \<Rightarrow> bool" where
  "deleted_from left x i =
     pattern_matches (if i = 0 then left else Some (x ! (i - 1))) (x ! i)
       (if Suc i < length x then Some (x ! Suc i) else None)"

text \<open>
  The same for a whole cell, written out: the character at position \<open>i\<close> is a hyphen that
  has a word character neither in front nor behind, or it is neither a word character, nor
  whitespace, nor a hyphen.
\<close>

definition deleted_at :: "string \<Rightarrow> nat \<Rightarrow> bool" where
  "deleted_at x i =
     ((x ! i = CHR ''-'' \<and> \<not> (0 < i \<and> is_word (x ! (i - 1)))
         \<and> \<not> (Suc i < length x \<and> is_word (x ! Suc i)))
      \<or> (\<not> is_word (x ! i) \<and> \<not> is_space (x ! i) \<and> x ! i \<noteq> CHR ''-''))"

text \<open>A string in which the pattern matches nowhere.\<close>

fun settled :: "char option \<Rightarrow> string \<Rightarrow> bool" where
  "settled left [] = True"
| "settled left (c # cs) = (\<not> pattern_matches left c (head_opt cs) \<and> settled (Some c) cs)"

text \<open>A string with two whitespace characters in a row.\<close>

fun has_double_space :: "string \<Rightarrow> bool" where
  "has_double_space (a # b # cs) = ((is_space a \<and> is_space b) \<or> has_double_space (b # cs))"
| "has_double_space cs = False"

section \<open>Characters and the transforms on one cell\<close>

lemma lower_char_idem: "lower_char (lower_char c) = lower_char c"
  by (auto simp: lower_char_def Let_def code_point_def)

lemma filter_dropWhile_not: "filter (\<lambda>c. \<not> P c) (dropWhile P xs) = filter (\<lambda>c. \<not> P c) xs"
  by (induction xs) auto

lemma remove_numbers_row_filter: "remove_numbers_row x = filter (\<lambda>c. \<not> is_digit c) x"
  by (induction x rule: remove_numbers_row.induct) (auto simp: filter_dropWhile_not)

lemma of_char_eqD: "of_char c = (n::nat) \<Longrightarrow> c = char_of n"
  by auto

lemma digit_chars:
  "char_of (48::nat) = CHR ''0''" "char_of (49::nat) = CHR ''1''" "char_of (50::nat) = CHR ''2''"
  "char_of (51::nat) = CHR ''3''" "char_of (52::nat) = CHR ''4''" "char_of (53::nat) = CHR ''5''"
  "char_of (54::nat) = CHR ''6''" "char_of (55::nat) = CHR ''7''" "char_of (56::nat) = CHR ''8''"
  "char_of (57::nat) = CHR ''9''"
  by code_simp+

lemma is_digit_iff: "is_digit c \<longleftrightarrow> c \<in> set ''0123456789''"
proof
  assume "is_digit c"
  then have "48 \<le> (of_char c :: nat) \<and> (of_char c :: nat) \<le> 57"
    unfolding is_digit_def code_point_def by simp
  then have "(of_char c :: nat) = 48 \<or> (of_char c :: nat) = 49 \<or> (of_char c :: nat) = 50
      \<or> (of_char c :: nat) = 51 \<or> (of_char c :: nat) = 52 \<or> (of_char c :: nat) = 53
      \<or> (of_char c :: nat) = 54 \<or> (of_char c :: nat) = 55 \<or> (of_char c :: nat) = 56
      \<or> (of_char c :: nat) = 57"
    by arith
  then have "c = char_of (48::nat) \<or> c = char_of (49::nat) \<or> c = char_of (50::nat)
      \<or> c = char_of (51::nat) \<or> c = char_of (52::nat) \<or> c = char_of (53::nat)
      \<or> c = char_of (54::nat) \<or> c = char_of (55::nat) \<or> c = char_of (56::nat)
      \<or> c = char_of (57::nat)"
    by (blast dest: of_char_eqD)
  then show "c \<in> set ''0123456789''"
    unfolding digit_chars by auto
next
  assume "c \<in> set ''0123456789''"
  then show "is_digit c"
    by (auto simp: is_digit_def code_point_def)
qed

lemma space_not_word: "is_space c \<Longrightarrow> \<not> is_word c"
  by (auto simp: is_space_def is_word_def is_alnum_def Let_def code_point_def)

lemma is_space_blank: "is_space CHR '' ''"
  by (simp add: is_space_def code_point_def)

lemma hyphen_not_word: "\<not> is_word CHR ''-''" "\<not> is_space CHR ''-''"
  by (simp_all add: is_word_def is_alnum_def is_space_def code_point_def)

lemma underscore_word: "is_word CHR ''_''"
  by (simp add: is_word_def)

lemma match_not_word: "pattern_matches l c r \<Longrightarrow> \<not> is_word c"
  by (auto simp: pattern_matches_def hyphen_alone_def other_punct_def hyphen_not_word)

lemma match_not_space: "pattern_matches l c r \<Longrightarrow> \<not> is_space c"
  by (auto simp: pattern_matches_def hyphen_alone_def other_punct_def hyphen_not_word)

lemma pattern_sub_keeps_word: "filter is_word (pattern_sub l x) = filter is_word x"
  by (induction x arbitrary: l) (auto dest: match_not_word)

lemma pattern_sub_keeps_space: "filter is_space (pattern_sub l x) = filter is_space x"
  by (induction x arbitrary: l) (auto dest: match_not_space)

lemma double_space_sub_nonspace:
  "filter (\<lambda>c. \<not> is_space c) (double_space_sub t) = filter (\<lambda>c. \<not> is_space c) t"
  by (induction t rule: double_space_sub.induct) (auto simp: is_space_blank)

lemma double_space_sub_keeps_word: "filter is_word (double_space_sub t) = filter is_word t"
  by (induction t rule: double_space_sub.induct) (auto simp: is_space_blank space_not_word)

section \<open>The punctuation pattern\<close>

lemma deleted_from_0: "deleted_from left (c # cs) 0 = pattern_matches left c (head_opt cs)"
  by (cases cs) (simp_all add: deleted_from_def)

lemma deleted_from_Suc: "deleted_from left (c # cs) (Suc i) = deleted_from (Some c) cs i"
  by (cases i) (simp_all add: deleted_from_def)

lemma pattern_sub_positions:
  "pattern_sub left x = map (nth x) (filter (\<lambda>i. \<not> deleted_from left x i) [0..<length x])"
proof (induction x arbitrary: left)
  case Nil
  show ?case by simp
next
  case (Cons c cs)
  have upt: "[0..<length (c # cs)] = 0 # map Suc [0..<length cs]"
    by (simp add: upt_conv_Cons map_Suc_upt del: upt_Suc)
  have tl: "map (nth (c # cs)) (filter (\<lambda>i. \<not> deleted_from left (c # cs) i) (map Suc [0..<length cs]))
      = pattern_sub (Some c) cs"
    by (simp add: filter_map comp_def deleted_from_Suc Cons.IH [of "Some c"])
  show ?case
    unfolding upt using tl by (simp add: deleted_from_0)
qed

lemma deleted_from_None: "deleted_from None x i = deleted_at x i"
  by (cases i) (auto simp: deleted_from_def deleted_at_def pattern_matches_def hyphen_alone_def other_punct_def)

lemma settled_sub_id: "settled left t \<Longrightarrow> pattern_sub left t = t"
  by (induction t arbitrary: left) auto

lemma no_match_mono:
  "\<not> pattern_matches l c r \<Longrightarrow> (word_opt l \<Longrightarrow> word_opt l') \<Longrightarrow> (word_opt r \<Longrightarrow> word_opt r')
    \<Longrightarrow> \<not> pattern_matches l' c r'"
  by (auto simp: pattern_matches_def hyphen_alone_def)

lemma settled_mono: "settled l t \<Longrightarrow> (word_opt l \<Longrightarrow> word_opt l') \<Longrightarrow> settled l' t"
proof (cases t)
  case Nil
  then show ?thesis by simp
next
  case (Cons c cs)
  assume "settled l t" and mono: "word_opt l \<Longrightarrow> word_opt l'"
  with Cons have head: "\<not> pattern_matches l c (head_opt cs)" and rest: "settled (Some c) cs"
    by simp_all
  from head have "\<not> pattern_matches l' c (head_opt cs)"
    by (rule no_match_mono) (use mono in auto)
  with rest Cons show ?thesis by simp
qed

lemma head_pattern_sub: "word_opt (head_opt cs) \<Longrightarrow> word_opt (head_opt (pattern_sub l cs))"
  by (cases cs) (auto dest: match_not_word)

lemma settled_pattern_sub: "settled l (pattern_sub l x)"
proof (induction x arbitrary: l)
  case Nil
  show ?case by simp
next
  case (Cons c cs)
  show ?case
  proof (cases "pattern_matches l c (head_opt cs)")
    case True
    then have "\<not> word_opt (Some c)" by (simp add: match_not_word)
    then have "settled l (pattern_sub (Some c) cs)"
      using Cons.IH [of "Some c"] by (auto intro: settled_mono)
    with True show ?thesis by simp
  next
    case False
    then have "\<not> pattern_matches l c (head_opt (pattern_sub (Some c) cs))"
      by (rule no_match_mono) (auto intro: head_pattern_sub)
    with False Cons.IH [of "Some c"] show ?thesis by simp
  qed
qed

lemma head_double_space_sub: "word_opt (head_opt t) \<Longrightarrow> word_opt (head_opt (double_space_sub t))"
  by (induction t rule: double_space_sub.induct) (auto simp: space_not_word)

lemma settled_double_space_sub: "settled l t \<Longrightarrow> settled l (double_space_sub t)"
proof (induction t arbitrary: l rule: double_space_sub.induct)
  case (1 a b cs)
  show ?case
  proof (cases "is_space a \<and> is_space b")
    case True
    from "1.prems" have "settled (Some b) cs" by simp
    then have "settled (Some CHR '' '') cs"
      using True by (auto intro: settled_mono simp: space_not_word)
    then have "settled (Some CHR '' '') (double_space_sub cs)"
      using "1.IH"(1) True by simp
    moreover have "\<not> pattern_matches l CHR '' '' r" for r
      using match_not_space is_space_blank by blast
    ultimately show ?thesis using True by simp
  next
    case False
    from "1.prems" have a: "\<not> pattern_matches l a (Some b)" and rest: "settled (Some a) (b # cs)"
      by simp_all
    from a have "\<not> pattern_matches l a (head_opt (double_space_sub (b # cs)))"
      by (rule no_match_mono) (use head_double_space_sub [of "b # cs"] in auto)
    moreover have "settled (Some a) (double_space_sub (b # cs))"
      using "1.IH"(2) False rest by simp
    ultimately show ?thesis using False by auto
  qed
qed simp_all

lemma double_space_sub_id: "\<not> has_double_space t \<Longrightarrow> double_space_sub t = t"
  by (induction t rule: double_space_sub.induct) auto

lemma length_double_space_sub: "length (double_space_sub t) \<le> length t"
  by (induction t rule: double_space_sub.induct) auto

lemma double_space_sub_shorter: "has_double_space t \<Longrightarrow> length (double_space_sub t) < length t"
proof (induction t rule: double_space_sub.induct)
  case (1 a b cs)
  then show ?case
    using length_double_space_sub [of cs] by (auto simp: less_Suc_eq_le)
qed simp_all

lemma settled_remove_punctuation_row: "settled None (remove_punctuation_row x)"
  by (simp add: remove_punctuation_row_def settled_double_space_sub settled_pattern_sub)

lemma remove_punctuation_row_twice:
  "remove_punctuation_row (remove_punctuation_row x) = double_space_sub (remove_punctuation_row x)"
  using settled_sub_id [OF settled_remove_punctuation_row [of x]]
  by (simp add: remove_punctuation_row_def)

lemma rp_idem_iff: "remove_punctuation_row (remove_punctuation_row x) = remove_punctuation_row x \<longleftrightarrow> \<not> has_double_space (remove_punctuation_row x)"
  using double_space_sub_id [of "remove_punctuation_row x"] double_space_sub_shorter [of "remove_punctuation_row x"]
  by (auto simp: remove_punctuation_row_twice)

section \<open>Columns, counts and the parser\<close>

lemma apply_column_Some:
  "df self column_name = Some col \<Longrightarrow>
     apply_column f self = Inr (self\<lparr>df := (df self)(column_name \<mapsto> map f col)\<rparr>)"
  by (simp add: apply_column_def)

lemma apply_column_None: "df self column_name = None \<Longrightarrow> apply_column f self = Inl KeyError"
  by (simp add: apply_column_def)

lemma remove_punctuation_column:
  "df self column_name = Some col \<Longrightarrow>
     remove_punctuation self
       = Inr (self\<lparr>df := (df self)(column_name \<mapsto> map remove_punctuation_row col)\<rparr>)"
proof -
  have "(\<lambda>x. double_space_sub (pattern_sub None x)) = remove_punctuation_row"
    by (rule ext) (simp add: remove_punctuation_row_def)
  then show "df self column_name = Some col \<Longrightarrow> ?thesis"
    by (simp add: remove_punctuation_def and_then_def apply_column_def comp_def)
qed

lemma sum_update_new:
  "map_of al k = None \<Longrightarrow>
     sum_list (map snd (AList.update k v al)) = sum_list (map snd al) + (v::nat)"
  by (induction al) (auto split: if_splits)

lemma sum_update_old:
  "map_of al k = Some (n::nat) \<Longrightarrow>
     sum_list (map snd (AList.update k (Suc n) al)) = Suc (sum_list (map snd al))"
  by (induction al) (auto split: if_splits)

lemma count_token_types: "types (count_token t self) = insert t (types self)"
  by (simp add: count_token_def Let_def split: option.splits)

lemma count_token_df: "df (count_token t self) = df self"
  by (simp add: count_token_def Let_def split: option.splits)

lemma count_token_bow: "bow (count_token t self) = bow self"
  by (simp add: count_token_def Let_def split: option.splits)

lemma count_token_sum:
  "sum_list (map snd (all_tokens (count_token t self))) = Suc (sum_list (map snd (all_tokens self)))"
  by (simp add: count_token_def Let_def sum_update_new sum_update_old split: option.splits)

lemma count_token_distinct:
  "distinct (map fst (all_tokens self)) \<Longrightarrow> distinct (map fst (all_tokens (count_token t self)))"
  by (simp add: count_token_def Let_def distinct_update split: option.splits)

lemma count_token_map_of:
  "map_of (all_tokens (count_token t self)) w =
     (if w = t then Some (Suc (case map_of (all_tokens self) t of None \<Rightarrow> 0 | Some n \<Rightarrow> n))
      else map_of (all_tokens self) w)"
  by (simp add: count_token_def Let_def update_conv' split: option.splits)

lemma fold_count_token_types: "types (fold count_token ts self) = types self \<union> set ts"
  by (induction ts arbitrary: self) (auto simp: count_token_types)

lemma fold_count_token_df: "df (fold count_token ts self) = df self"
  by (induction ts arbitrary: self) (auto simp: count_token_df)

lemma fold_count_token_bow: "bow (fold count_token ts self) = bow self"
  by (induction ts arbitrary: self) (auto simp: count_token_bow)

lemma fold_count_token_sum:
  "sum_list (map snd (all_tokens (fold count_token ts self)))
     = sum_list (map snd (all_tokens self)) + length ts"
  by (induction ts arbitrary: self) (auto simp: count_token_sum)

lemma fold_count_token_distinct:
  "distinct (map fst (all_tokens self)) \<Longrightarrow>
     distinct (map fst (all_tokens (fold count_token ts self)))"
  by (induction ts arbitrary: self) (auto simp: count_token_distinct)

lemma fold_count_token_map_of:
  "map_of (all_tokens (fold count_token ts self)) w =
     (if w \<in> set ts
      then Some (count_list ts w + (case map_of (all_tokens self) w of None \<Rightarrow> 0 | Some n \<Rightarrow> n))
      else map_of (all_tokens self) w)"
  by (induction ts arbitrary: self) (auto simp: count_token_map_of split: option.splits)

lemma fold_count_tokens_stack:
  "fold count_tokens col self = fold count_token (stack_tokens col) self"
  by (induction col arbitrary: self) (simp_all add: stack_tokens_def count_tokens_def)

lemma set_unique: "set (unique xs) = set xs"
  by (simp add: unique_def)

lemma distinct_unique: "distinct (unique xs)"
  by (simp add: unique_def)

lemma sum_list_insort_key:
  "sum_list (map g (insort_key f x xs)) = g x + sum_list (map g xs)"
  for g :: "'a \<Rightarrow> nat"
  by (induction xs) auto

lemma sum_list_sort_key: "sum_list (map g (sort_key f xs)) = sum_list (map g xs)"
  for g :: "'a \<Rightarrow> nat"
  by (induction xs) (auto simp: sum_list_insort_key)

lemma value_counts_set:
  "set (value_counts xs) = (\<lambda>w. (w, count_list xs w)) ` set xs"
  by (simp add: value_counts_def set_unique)

lemma value_counts_distinct: "distinct (map fst (value_counts xs))"
proof -
  let ?L = "map (\<lambda>w. (w, count_list xs w)) (unique xs)"
  have "map fst ?L = unique xs"
    by (simp add: comp_def)
  then have "distinct (map fst ?L)"
    by (simp only: distinct_unique)
  then have "distinct ?L \<and> inj_on fst (set ?L)"
    by (simp only: distinct_map)
  then have "distinct (sort_key (\<lambda>(w, n). - int n) ?L)
      \<and> inj_on fst (set (sort_key (\<lambda>(w, n). - int n) ?L))"
    by (simp only: distinct_sort set_sort)
  then show ?thesis
    unfolding value_counts_def by (simp only: distinct_map)
qed

lemma value_counts_map_of:
  "map_of (value_counts xs) w = (if w \<in> set xs then Some (count_list xs w) else None)"
proof (cases "w \<in> set xs")
  case True
  then have "(w, count_list xs w) \<in> set (value_counts xs)"
    by (simp add: value_counts_set)
  then show ?thesis
    using True value_counts_distinct by simp
next
  case False
  then have "w \<notin> fst ` set (value_counts xs)"
    by (auto simp: value_counts_set)
  then show ?thesis
    using False by (simp add: map_of_eq_None_iff)
qed

lemma value_counts_sum: "sum_list (map snd (value_counts xs)) = length xs"
proof -
  have "sum_list (map snd (value_counts xs)) = sum_list (map (count_list xs) (unique xs))"
    by (simp add: value_counts_def sum_list_sort_key comp_def)
  also have "\<dots> = sum (count_list xs) (set xs)"
    using distinct_unique [of xs] by (simp add: sum_list_distinct_conv_sum_set set_unique)
  also have "\<dots> = length xs"
    by (simp add: sum_count_set)
  finally show ?thesis .
qed

lemma value_counts_sorted: "sorted_wrt (\<ge>) (map snd (value_counts xs))"
proof -
  have "sorted (map (\<lambda>(w, n). - int n) (value_counts xs))"
    unfolding value_counts_def by (rule sorted_sort_key)
  then have "sorted_wrt (\<lambda>a b. - int (snd a) \<le> - int (snd b)) (value_counts xs)"
    by (simp add: sorted_map case_prod_unfold)
  then have "sorted_wrt (\<lambda>a b. snd a \<ge> snd b) (value_counts xs)"
    by (rule sorted_wrt_mono_rel [rotated]) simp
  then show ?thesis
    by (simp add: sorted_wrt_map)
qed

lemma take_action_seen_lemma:
  "seen_lemma p \<Longrightarrow> take_action a p = Inr p' \<Longrightarrow> seen_lemma p'"
  by (cases a) (auto split: if_splits)

lemma take_action_seen_stem:
  "seen_stem p \<Longrightarrow> take_action a p = Inr p' \<Longrightarrow> seen_stem p'"
  by (cases a) (auto split: if_splits)

lemma take_action_error: "take_action a p = Inl e \<Longrightarrow> e = SystemExit 2"
  by (cases a) (auto split: if_splits)

lemma consume_seen_lemma:
  "seen_lemma p \<Longrightarrow> Stem \<in> set argv \<or> NoStem \<in> set argv \<Longrightarrow> consume argv p = Inl (SystemExit 2)"
proof (induction argv arbitrary: p)
  case Nil
  then show ?case by simp
next
  case (Cons a argv)
  show ?case
  proof (cases "take_action a p")
    case (Inl e)
    then show ?thesis by (simp add: and_then_def take_action_error)
  next
    case (Inr p')
    with Cons.prems have "a \<noteq> Stem" "a \<noteq> NoStem" by auto
    with Cons.prems have "Stem \<in> set argv \<or> NoStem \<in> set argv" by auto
    moreover have "seen_lemma p'" using Cons.prems(1) Inr by (rule take_action_seen_lemma)
    ultimately show ?thesis using Cons.IH Inr by (simp add: and_then_def)
  qed
qed

lemma consume_seen_stem:
  "seen_stem p \<Longrightarrow> Lemma \<in> set argv \<or> NoLemma \<in> set argv \<Longrightarrow> consume argv p = Inl (SystemExit 2)"
proof (induction argv arbitrary: p)
  case Nil
  then show ?case by simp
next
  case (Cons a argv)
  show ?case
  proof (cases "take_action a p")
    case (Inl e)
    then show ?thesis by (simp add: and_then_def take_action_error)
  next
    case (Inr p')
    with Cons.prems have "a \<noteq> Lemma" "a \<noteq> NoLemma" by auto
    with Cons.prems have "Lemma \<in> set argv \<or> NoLemma \<in> set argv" by auto
    moreover have "seen_stem p'" using Cons.prems(1) Inr by (rule take_action_seen_stem)
    ultimately show ?thesis using Cons.IH Inr by (simp add: and_then_def)
  qed
qed

lemma consume_both:
  "Stem \<in> set argv \<or> NoStem \<in> set argv \<Longrightarrow> Lemma \<in> set argv \<or> NoLemma \<in> set argv
    \<Longrightarrow> consume argv p = Inl (SystemExit 2)"
proof (induction argv arbitrary: p)
  case Nil
  then show ?case by simp
next
  case (Cons a argv)
  show ?case
  proof (cases "take_action a p")
    case (Inl e)
    then show ?thesis by (simp add: and_then_def take_action_error)
  next
    case (Inr p')
    show ?thesis
    proof (cases a)
      case Stop
      with Cons Inr show ?thesis by (simp add: and_then_def)
    next
      case NoStop
      with Cons Inr show ?thesis by (simp add: and_then_def)
    next
      case Stem
      with Inr have "seen_stem p'" by (auto split: if_splits)
      moreover from Stem Cons.prems have "Lemma \<in> set argv \<or> NoLemma \<in> set argv" by auto
      ultimately show ?thesis using Inr by (simp add: and_then_def consume_seen_stem)
    next
      case NoStem
      with Inr have "seen_stem p'" by (auto split: if_splits)
      moreover from NoStem Cons.prems have "Lemma \<in> set argv \<or> NoLemma \<in> set argv" by auto
      ultimately show ?thesis using Inr by (simp add: and_then_def consume_seen_stem)
    next
      case Lemma
      with Inr have "seen_lemma p'" by (auto split: if_splits)
      moreover from Lemma Cons.prems have "Stem \<in> set argv \<or> NoStem \<in> set argv" by auto
      ultimately show ?thesis using Inr by (simp add: and_then_def consume_seen_lemma)
    next
      case NoLemma
      with Inr have "seen_lemma p'" by (auto split: if_splits)
      moreover from NoLemma Cons.prems have "Stem \<in> set argv \<or> NoStem \<in> set argv" by auto
      ultimately show ?thesis using Inr by (simp add: and_then_def consume_seen_lemma)
    qed
  qed
qed

section \<open>The claims\<close>

text \<open>
  Claim C1, as the code has it. \<^verbatim>\<open>remove_punctuation\<close> deletes a character exactly when
  it is neither a word character (alphanumeric or underscore), nor whitespace, nor a
  hyphen, or when it is a hyphen with a word character on neither side. So a hyphen with a
  word character on at least one side stays, a leading or trailing hyphen of a word
  included, and so does every underscore. The first step yields exactly the characters at
  the positions that are not deleted, in their order, and since the second step only
  rewrites whitespace these are also the characters of the result that are no whitespace.
\<close>

theorem remove_punctuation_row_positions:
  "pattern_sub None x = map (nth x) (filter (\<lambda>i. \<not> deleted_at x i) [0..<length x])
   \<and> filter (\<lambda>c. \<not> is_space c) (remove_punctuation_row x)
       = filter (\<lambda>c. \<not> is_space c)
           (map (nth x) (filter (\<lambda>i. \<not> deleted_at x i) [0..<length x]))"
proof -
  have "pattern_sub None x = map (nth x) (filter (\<lambda>i. \<not> deleted_at x i) [0..<length x])"
    using pattern_sub_positions [of None x] by (simp add: deleted_from_None)
  then show ?thesis
    by (simp add: remove_punctuation_row_def double_space_sub_nonspace)
qed

text \<open>
  The cell \<^verbatim>\<open>-a - b-c! d-\<close>: the hyphen between the two spaces and the exclamation mark
  go, the other three hyphens stay.
\<close>

theorem remove_punctuation_row_positions_witness:
  "filter (\<lambda>c. \<not> is_space c)
     (map (nth ''-a - b-c! d-'')
        (filter (\<lambda>i. \<not> deleted_at ''-a - b-c! d-'' i) [0..<length ''-a - b-c! d-'']))
   = ''-ab-cd-''"
proof -
  have "filter (\<lambda>c. \<not> is_space c) (remove_punctuation_row ''-a - b-c! d-'') = ''-ab-cd-''"
    by code_simp
  with remove_punctuation_row_positions [of "''-a - b-c! d-''"] show ?thesis
    by (simp only:)
qed

text \<open>
  Claim C1 as it is stated fails on the cell \<^verbatim>\<open>-a_\<close>: the leading hyphen has no word
  character in front of it and is kept, and the underscore, which is neither alphanumeric
  nor whitespace nor a hyphen, is kept as well.
\<close>

theorem remove_punctuation_row_leading_hyphen:
  "remove_punctuation_row ''-a_'' = ''-a_'' \<and> \<not> is_alnum CHR ''_'' \<and> \<not> is_space CHR ''_''"
  by code_simp

text \<open>
  Claim C2. Whatever the three flags are, \<^verbatim>\<open>main\<close> leaves in the text column the result
  of lowercase, then remove-numbers, then remove-punctuation, then stopword removal if
  \<^verbatim>\<open>stop\<close> is set, then stemming if \<^verbatim>\<open>stem\<close> is set, then lemmatization if \<^verbatim>\<open>lemma\<close>
  is set, in this order.
\<close>

theorem main_order:
  assumes "df self column_name = Some col"
  shows "\<exists>self'. main r self = Inr self' \<and> df self' column_name =
           Some (let c1 = map lowercase_row col;
                     c2 = map remove_numbers_row c1;
                     c3 = map remove_punctuation_row c2;
                     c4 = (if stop (inputs self) then map (remove_stop_words r) c3 else c3);
                     c5 = (if stem (inputs self) then map (stem_phrase r) c4 else c4);
                     c6 = (if lemma_flag (inputs self) then map (lemmatize_phrase r) c5 else c5)
                 in c6)"
  using assms
  by (simp add: main_def and_then_def lowercase_def remove_numbers_def remove_punctuation_column
      remove_stopwords_def stem_words_def lemmatize_words_def apply_column_def create_bow_def
      count_types_and_tokens_def fold_count_tokens_stack fold_count_token_df)

theorem main_order_witness:
  "df \<lparr>inputs = \<lparr>stop = False, stem = False, lemma_flag = False\<rparr>,
        df = [column_name \<mapsto> [''AD 1530-1'']], all_tokens = [], types = {}, bow = None\<rparr>
      column_name = Some [''AD 1530-1'']
   \<and> (\<exists>self'. main \<lparr>stopwords_words = [], porter_stem = (\<lambda>w. w), wordnet_lemmatize = (\<lambda>w. w)\<rparr>
            \<lparr>inputs = \<lparr>stop = False, stem = False, lemma_flag = False\<rparr>,
             df = [column_name \<mapsto> [''AD 1530-1'']], all_tokens = [], types = {}, bow = None\<rparr>
          = Inr self' \<and> df self' column_name = Some [''ad ''])"
proof -
  let ?S = "\<lparr>inputs = \<lparr>stop = False, stem = False, lemma_flag = False\<rparr>,
        df = [column_name \<mapsto> [''AD 1530-1'']], all_tokens = [], types = {}, bow = None\<rparr>"
  let ?R = "\<lparr>stopwords_words = [], porter_stem = (\<lambda>w. w), wordnet_lemmatize = (\<lambda>w. w)\<rparr>"
  have e: "map remove_punctuation_row (map remove_numbers_row (map lowercase_row [''AD 1530-1'']))
      = [''ad '']"
    by code_simp
  have h: "df ?S column_name = Some [''AD 1530-1'']"
    by (simp only: preprocessing.simps fun_upd_same)
  have f: "\<not> stop (inputs ?S)" "\<not> stem (inputs ?S)" "\<not> lemma_flag (inputs ?S)"
    by (simp_all only: preprocessing.simps namespace.simps not_False_eq_True)
  from main_order [OF h, of ?R] obtain self' where
    m: "main ?R ?S = Inr self'" and
    d: "df self' column_name =
      Some (let c1 = map lowercase_row [''AD 1530-1''];
                c2 = map remove_numbers_row c1;
                c3 = map remove_punctuation_row c2;
                c4 = (if stop (inputs ?S) then map (remove_stop_words ?R) c3 else c3);
                c5 = (if stem (inputs ?S) then map (stem_phrase ?R) c4 else c4);
                c6 = (if lemma_flag (inputs ?S) then map (lemmatize_phrase ?R) c5 else c5)
            in c6)"
    by blast
  from d have "df self' column_name = Some [''ad '']"
    unfolding Let_def by (simp only: f if_False e)
  with m h show ?thesis by blast
qed

text \<open>
  Claim C3. When the command line has both \<^verbatim>\<open>--stem\<close> and \<^verbatim>\<open>--lemma\<close>, the constructor
  ends in the parser's error exit with status 2, and so does the script: the input file
  is not read, no transform runs and no output file is written. The only file operation
  that can come before the exit is the creation of the output directory.
\<close>

theorem both_flags_exit:
  assumes "Stem \<in> set argv" and "Lemma \<in> set argv"
  shows "snd (init argv w) = Inl (SystemExit 2)
       \<and> snd (run r argv w) = Inl (SystemExit 2)
       \<and> effects (fst (run r argv w)) = effects w @ (if output_dir_exists w then [] else [Mkdir])"
proof -
  have "parse_args argv = Inl (SystemExit 2)"
    unfolding parse_args_def using assms by (intro consume_both) simp_all
  then show ?thesis
    by (simp add: run_def init_def Let_def)
qed

theorem both_flags_exit_witness:
  "Stem \<in> set [Stop, Stem, Lemma] \<and> Lemma \<in> set [Stop, Stem, Lemma]
   \<and> snd (run \<lparr>stopwords_words = [], porter_stem = (\<lambda>w. w), wordnet_lemmatize = (\<lambda>w. w)\<rparr>
        [Stop, Stem, Lemma]
        \<lparr>output_dir_exists = True, data_csv = Some [column_name \<mapsto> [''a'']], effects = []\<rparr>)
      = Inl (SystemExit 2)
   \<and> effects (fst (run \<lparr>stopwords_words = [], porter_stem = (\<lambda>w. w), wordnet_lemmatize = (\<lambda>w. w)\<rparr>
        [Stop, Stem, Lemma]
        \<lparr>output_dir_exists = True, data_csv = Some [column_name \<mapsto> [''a'']], effects = []\<rparr>)) = []"
  using both_flags_exit [of "[Stop, Stem, Lemma]"
      "\<lparr>output_dir_exists = True, data_csv = Some [column_name \<mapsto> [''a'']], effects = []\<rparr>"
      "\<lparr>stopwords_words = [], porter_stem = (\<lambda>w. w), wordnet_lemmatize = (\<lambda>w. w)\<rparr>"]
  by simp

text \<open>
  Claim C4. Started with the empty dictionary and the empty set, as the constructor leaves
  them, \<^verbatim>\<open>count_types_and_tokens\<close> ends with a dictionary whose counts add up to the
  number of tokens that \<^verbatim>\<open>split()\<close> finds in all rows of the column, and with a set of
  types whose size is the number of distinct tokens. The column is left as it was.
\<close>

theorem count_types_and_tokens_totals:
  assumes "df self column_name = Some col" and "all_tokens self = []" and "types self = {}"
  shows "\<exists>self'. count_types_and_tokens self = Inr self'
           \<and> df self' = df self
           \<and> distinct (map fst (all_tokens self'))
           \<and> sum_list (map snd (all_tokens self')) = length (concat (map str_split col))
           \<and> types self' = set (concat (map str_split col))
           \<and> card (types self') = length (remdups (concat (map str_split col)))"
  using assms
  by (simp add: count_types_and_tokens_def fold_count_tokens_stack fold_count_token_df
      fold_count_token_distinct fold_count_token_sum fold_count_token_types stack_tokens_def
      length_remdups_card_conv)

theorem count_types_and_tokens_totals_witness:
  "\<exists>self'. count_types_and_tokens
        \<lparr>inputs = \<lparr>stop = False, stem = False, lemma_flag = False\<rparr>,
         df = [column_name \<mapsto> [''a b a'', '''', ''c  b'']], all_tokens = [], types = {},
         bow = None\<rparr> = Inr self'
     \<and> sum_list (map snd (all_tokens self')) = 5 \<and> card (types self') = 3"
proof -
  have "length (concat (map str_split [''a b a'', '''', ''c  b''])) = 5"
    and "length (remdups (concat (map str_split [''a b a'', '''', ''c  b'']))) = 3"
    by code_simp+
  with count_types_and_tokens_totals [of
      "\<lparr>inputs = \<lparr>stop = False, stem = False, lemma_flag = False\<rparr>,
        df = [column_name \<mapsto> [''a b a'', '''', ''c  b'']], all_tokens = [], types = {},
        bow = None\<rparr>" "[''a b a'', '''', ''c  b'']"]
  show ?thesis by auto
qed

text \<open>
  Claim C5. \<^verbatim>\<open>create_bow\<close> and then \<^verbatim>\<open>count_types_and_tokens\<close>, as \<^verbatim>\<open>main\<close> calls them
  on the transformed column: the bag-of-words table has every token once, gives every
  token the count that the dictionary \<^verbatim>\<open>all_tokens\<close> gives it, so that the two sums of
  counts agree, and its counts never rise from one row to the next.
\<close>

theorem bow_agrees_with_all_tokens:
  assumes "df self column_name = Some col" and "all_tokens self = []" and "types self = {}"
  shows "\<exists>s1 s2 tbl. create_bow self = Inr s1 \<and> count_types_and_tokens s1 = Inr s2
           \<and> bow s2 = Some tbl
           \<and> distinct (map fst tbl)
           \<and> map_of tbl = map_of (all_tokens s2)
           \<and> sum_list (map snd tbl) = sum_list (map snd (all_tokens s2))
           \<and> sorted_wrt (\<ge>) (map snd tbl)"
proof -
  let ?ts = "stack_tokens col"
  let ?s1 = "self\<lparr>bow := Some (value_counts ?ts)\<rparr>"
  let ?s2 = "fold count_token ?ts ?s1"
  have 1: "create_bow self = Inr ?s1"
    using assms(1) by (simp add: create_bow_def)
  have 2: "count_types_and_tokens ?s1 = Inr ?s2"
    using assms(1) by (simp add: count_types_and_tokens_def fold_count_tokens_stack)
  have 3: "bow ?s2 = Some (value_counts ?ts)"
    by (simp add: fold_count_token_bow)
  have "map_of (value_counts ?ts) w = map_of (all_tokens ?s2) w" for w
    using assms(2) by (simp add: value_counts_map_of fold_count_token_map_of)
  then have 4: "map_of (value_counts ?ts) = map_of (all_tokens ?s2)"
    by (rule ext)
  have 5: "sum_list (map snd (value_counts ?ts)) = sum_list (map snd (all_tokens ?s2))"
    using assms(2) by (simp add: value_counts_sum fold_count_token_sum)
  show ?thesis
    using 1 2 3 4 5 value_counts_distinct [of ?ts] value_counts_sorted [of ?ts] by blast
qed

theorem bow_agrees_with_all_tokens_witness:
  "\<exists>s1 s2 tbl. create_bow
        \<lparr>inputs = \<lparr>stop = False, stem = False, lemma_flag = False\<rparr>,
         df = [column_name \<mapsto> [''a b a'', ''c  b'']], all_tokens = [], types = {},
         bow = None\<rparr> = Inr s1
     \<and> count_types_and_tokens s1 = Inr s2 \<and> bow s2 = Some tbl
     \<and> map_of tbl = map_of (all_tokens s2) \<and> sorted_wrt (\<ge>) (map snd tbl)"
  using bow_agrees_with_all_tokens [of
      "\<lparr>inputs = \<lparr>stop = False, stem = False, lemma_flag = False\<rparr>,
        df = [column_name \<mapsto> [''a b a'', ''c  b'']], all_tokens = [], types = {},
        bow = None\<rparr>" "[''a b a'', ''c  b'']"]
  by auto

text \<open>
  Claim C6. No character of the result of \<^verbatim>\<open>remove_numbers\<close> on a cell is a decimal
  digit.
\<close>

theorem remove_numbers_row_no_digits:
  "\<forall>c \<in> set (remove_numbers_row x). \<not> is_digit c \<and> c \<notin> set ''0123456789''"
  using is_digit_iff by (auto simp: remove_numbers_row_filter)

theorem remove_numbers_row_no_digits_witness:
  "CHR ''-'' \<in> set (remove_numbers_row ''ad 1530-1'')
   \<and> \<not> is_digit CHR ''-'' \<and> CHR ''-'' \<notin> set ''0123456789''"
proof -
  have "CHR ''-'' \<in> set (remove_numbers_row ''ad 1530-1'')"
    by code_simp
  with remove_numbers_row_no_digits [of "''ad 1530-1''"] show ?thesis
    by blast
qed

text \<open>
  Claim C7, as the code has it. Lowercasing a cell twice is the same as lowercasing it
  once. Removing punctuation twice is the same as removing it once exactly when the result
  of the first pass has no two whitespace characters in a row: the second pass deletes
  nothing more, but it runs the replacement of two whitespace characters by a space again.
\<close>

theorem lowercase_remove_punctuation_idempotence:
  "lowercase_row (lowercase_row x) = lowercase_row x
   \<and> (remove_punctuation_row (remove_punctuation_row y) = remove_punctuation_row y
        \<longleftrightarrow> \<not> has_double_space (remove_punctuation_row y))"
  by (simp add: lowercase_row_def lower_char_idem rp_idem_iff)

theorem lowercase_remove_punctuation_idempotence_witness:
  "\<not> has_double_space (remove_punctuation_row ''a - b'')
   \<and> remove_punctuation_row (remove_punctuation_row ''a - b'') = remove_punctuation_row ''a - b''"
proof -
  have "\<not> has_double_space (remove_punctuation_row ''a - b'')"
    by code_simp
  with lowercase_remove_punctuation_idempotence [of "''A''" "''a - b''"] show ?thesis
    by simp
qed

text \<open>
  Claim C7 as it is stated fails on a cell with three spaces in a row: the first pass
  leaves two of them, the second pass one.
\<close>

theorem remove_punctuation_row_not_idempotent:
  "remove_punctuation_row (remove_punctuation_row ''a   b'') \<noteq> remove_punctuation_row ''a   b''"
  by code_simp

text \<open>
  Claim C8, as the code has it. Lowercase, remove-numbers and remove-punctuation turn the
  cell \<^verbatim>\<open>AD 1530-1\<close> into \<^verbatim>\<open>ad\<close> followed by one space: the space in front of the
  number stays. The only token of the result is \<^verbatim>\<open>ad\<close>.
\<close>

theorem mandatory_stages_example:
  "remove_punctuation_row (remove_numbers_row (lowercase_row ''AD 1530-1'')) = ''ad ''
   \<and> str_split (remove_punctuation_row (remove_numbers_row (lowercase_row ''AD 1530-1'')))
       = [''ad'']"
  by code_simp

text \<open>Claim C8 as it is stated: the result is not the two-character string \<^verbatim>\<open>ad\<close>.\<close>

theorem mandatory_stages_trailing_space:
  "remove_punctuation_row (remove_numbers_row (lowercase_row ''AD 1530-1'')) \<noteq> ''ad''"
  by code_simp

text \<open>
  Claim C9. Each of the six transforms succeeds on a table that has the text column and
  leaves a column of the same length, in which the cell of every row is the image of the
  cell the row had before, under a function of that cell alone.
\<close>

theorem transforms_rowwise:
  assumes "df self column_name = Some col"
  shows "(\<exists>self' col'. lowercase self = Inr self' \<and> df self' column_name = Some col'
            \<and> length col' = length col \<and> (\<forall>i<length col. col' ! i = lowercase_row (col ! i)))
       \<and> (\<exists>self' col'. remove_numbers self = Inr self' \<and> df self' column_name = Some col'
            \<and> length col' = length col \<and> (\<forall>i<length col. col' ! i = remove_numbers_row (col ! i)))
       \<and> (\<exists>self' col'. remove_punctuation self = Inr self' \<and> df self' column_name = Some col'
            \<and> length col' = length col
            \<and> (\<forall>i<length col. col' ! i = remove_punctuation_row (col ! i)))
       \<and> (\<exists>self' col'. remove_stopwords r self = Inr self' \<and> df self' column_name = Some col'
            \<and> length col' = length col
            \<and> (\<forall>i<length col. col' ! i = remove_stop_words r (col ! i)))
       \<and> (\<exists>self' col'. stem_words r self = Inr self' \<and> df self' column_name = Some col'
            \<and> length col' = length col \<and> (\<forall>i<length col. col' ! i = stem_phrase r (col ! i)))
       \<and> (\<exists>self' col'. lemmatize_words r self = Inr self' \<and> df self' column_name = Some col'
            \<and> length col' = length col
            \<and> (\<forall>i<length col. col' ! i = lemmatize_phrase r (col ! i)))"
  using assms
  by (simp add: lowercase_def remove_numbers_def remove_punctuation_column remove_stopwords_def
      stem_words_def lemmatize_words_def apply_column_Some)

theorem transforms_rowwise_witness:
  "df \<lparr>inputs = \<lparr>stop = True, stem = False, lemma_flag = False\<rparr>,
        df = [column_name \<mapsto> [''Ab 1'', ''c  d!'']], all_tokens = [], types = {}, bow = None\<rparr>
      column_name = Some [''Ab 1'', ''c  d!'']
   \<and> (\<exists>self' col'. remove_punctuation
          \<lparr>inputs = \<lparr>stop = True, stem = False, lemma_flag = False\<rparr>,
           df = [column_name \<mapsto> [''Ab 1'', ''c  d!'']], all_tokens = [], types = {}, bow = None\<rparr>
        = Inr self' \<and> df self' column_name = Some col' \<and> length col' = 2
        \<and> col' ! 1 = remove_punctuation_row ''c  d!'')"
proof -
  let ?S = "\<lparr>inputs = \<lparr>stop = True, stem = False, lemma_flag = False\<rparr>,
        df = [column_name \<mapsto> [''Ab 1'', ''c  d!'']], all_tokens = [], types = {}, bow = None\<rparr>"
  let ?C = "[''Ab 1'', ''c  d!'']"
  have h: "df ?S column_name = Some ?C"
    by (simp only: preprocessing.simps fun_upd_same)
  note t = transforms_rowwise [OF h, THEN conjunct2, THEN conjunct2, THEN conjunct1]
  then obtain self' col' where
    r: "remove_punctuation ?S = Inr self'" "df self' column_name = Some col'"
      "length col' = length ?C" "\<forall>i<length ?C. col' ! i = remove_punctuation_row (?C ! i)"
    by blast
  have l: "length ?C = 2" by simp
  have "(1::nat) < length ?C" by simp
  with r(4) have "col' ! 1 = remove_punctuation_row (?C ! 1)" by blast
  moreover have "?C ! 1 = ''c  d!''" by simp
  ultimately have "col' ! 1 = remove_punctuation_row ''c  d!''" by (simp only:)
  with r(1,2,3) l h show ?thesis by (metis (no_types))
qed

text \<open>
  Claim C10. \<^verbatim>\<open>remove_punctuation\<close> keeps the underscores of a cell: the result has as
  many as the cell had.
\<close>

theorem underscore_kept:
  "filter (\<lambda>c. c = CHR ''_'') (remove_punctuation_row x) = filter (\<lambda>c. c = CHR ''_'') x
   \<and> (CHR ''_'' \<in> set x \<longrightarrow> CHR ''_'' \<in> set (remove_punctuation_row x))"
proof -
  have w: "filter is_word (remove_punctuation_row x) = filter is_word x"
    by (simp add: remove_punctuation_row_def double_space_sub_keeps_word pattern_sub_keeps_word)
  have "filter (\<lambda>c. c = CHR ''_'') (filter is_word s) = filter (\<lambda>c. c = CHR ''_'') s" for s
    by (induction s) (auto simp: underscore_word)
  with w have f:
    "filter (\<lambda>c. c = CHR ''_'') (remove_punctuation_row x) = filter (\<lambda>c. c = CHR ''_'') x"
    by metis
  have "CHR ''_'' \<in> set s \<longleftrightarrow> filter (\<lambda>c. c = CHR ''_'') s \<noteq> []" for s
    by (induction s) auto
  with f show ?thesis by simp
qed

theorem underscore_kept_witness:
  "CHR ''_'' \<in> set ''a_b _ -_'' \<and> CHR ''_'' \<in> set (remove_punctuation_row ''a_b _ -_'')"
  using underscore_kept [of "''a_b _ -_''"] by simp

end
